theory Spec2Isabelle
  imports Main
begin

section \<open>JavaScript string primitives\<close>

text \<open>
  Source strings are modelled as Isabelle strings; a \<^typ>\<open>char\<close> stands for one code unit
  in the Latin-1 range (0..255). The primitives below are the ones the changelog code calls:
  \<^verbatim>\<open>toLowerCase\<close>, \<^verbatim>\<open>startsWith\<close>, \<^verbatim>\<open>includes\<close>, \<^verbatim>\<open>trim\<close>, \<^verbatim>\<open>split\<close> and \<^verbatim>\<open>join\<close>.
\<close>

definition toLowerChar :: "char \<Rightarrow> char" where
  \<comment> \<open>A-Z and the accented capitals U+00C0..U+00DE (without the multiplication sign U+00D7)
      move up by 32; every other code unit below 256 is its own lower case.\<close>
  "toLowerChar c =
     (let n = (of_char c :: nat)
      in if (65 \<le> n \<and> n \<le> 90) \<or> (192 \<le> n \<and> n \<le> 222 \<and> n \<noteq> 215)
         then char_of (n + 32) else c)"

definition toLowerCase :: "string \<Rightarrow> string" where
  "toLowerCase s = map toLowerChar s"

definition startsWith :: "string \<Rightarrow> string \<Rightarrow> bool" where
  "startsWith s p = (take (length p) s = p)"

fun includes_js :: "string \<Rightarrow> string \<Rightarrow> bool" where
  "includes_js [] q = (q = [])"
| "includes_js (c # cs) q = (startsWith (c # cs) q \<or> includes_js cs q)"

definition isWhiteSpace :: "char \<Rightarrow> bool" where
  \<comment> \<open>The white space and line terminator code units below 256: TAB, LF, VT, FF, CR, SP, NBSP.\<close>
  "isWhiteSpace c = (of_char c \<in> {9, 10, 11, 12, 13, 32, 160 :: nat})"

definition trim :: "string \<Rightarrow> string" where
  "trim s = rev (dropWhile isWhiteSpace (rev (dropWhile isWhiteSpace s)))"

fun split :: "char \<Rightarrow> string \<Rightarrow> string list" where
  \<comment> \<open>\<^verbatim>\<open>s.split(sep)\<close> for a one-character separator: the empty string splits to \<^verbatim>\<open>['']\<close>.\<close>
  "split sep [] = [[]]"
| "split sep (c # cs) =
     (if c = sep then [] # split sep cs
      else (case split sep cs of w # ws \<Rightarrow> (c # w) # ws | [] \<Rightarrow> [[c]]))"

fun join :: "char \<Rightarrow> string list \<Rightarrow> string" where
  "join sep [] = []"
| "join sep [x] = x"
| "join sep (x # y # ys) = x @ sep # join sep (y # ys)"

section \<open>Commit records and the classifier\<close>

datatype CommitType = Feature | Fix | Docs | Chore | Refactor | Test | Style | Other

definition detectCommitType :: "string \<Rightarrow> CommitType" where
  \<comment> \<open>\<^verbatim>\<open>detectCommitType\<close> of \<^verbatim>\<open>utils.ts\<close>.\<close>
  "detectCommitType message =
     (let lowerMessage = toLowerCase message
      in if startsWith lowerMessage ''feat'' \<or> includes_js lowerMessage '': feat'' then Feature
         else if startsWith lowerMessage ''fix'' \<or> includes_js lowerMessage '': fix'' then Fix
         else if startsWith lowerMessage ''docs'' \<or> includes_js lowerMessage '': docs'' then Docs
         else if startsWith lowerMessage ''chore'' \<or> includes_js lowerMessage '': chore'' then Chore
         else if startsWith lowerMessage ''refactor'' \<or> includes_js lowerMessage '': refactor''
           then Refactor
         else if startsWith lowerMessage ''test'' \<or> includes_js lowerMessage '': test'' then Test
         else if startsWith lowerMessage ''style'' \<or> includes_js lowerMessage '': style'' then Style
         else if includes_js lowerMessage ''add'' \<or> includes_js lowerMessage ''new''
                 \<or> includes_js lowerMessage ''implement'' then Feature
         else if includes_js lowerMessage ''fix'' \<or> includes_js lowerMessage ''bug''
                 \<or> includes_js lowerMessage ''issue'' then Fix
         else if includes_js lowerMessage ''document'' \<or> includes_js lowerMessage ''readme''
                 \<or> includes_js lowerMessage ''comment'' then Docs
         else if includes_js lowerMessage ''clean'' \<or> includes_js lowerMessage ''update''
                 \<or> includes_js lowerMessage ''upgrade'' then Chore
         else Other)"

definition detectCommitType_inline :: "string \<Rightarrow> CommitType" where
  \<comment> \<open>The \<^verbatim>\<open>detectCommitType\<close> closure defined inside the \<^verbatim>\<open>Changelog\<close> component.\<close>
  "detectCommitType_inline message =
     (let lowerMessage = toLowerCase message
      in if startsWith lowerMessage ''feat'' \<or> includes_js lowerMessage '': feat'' then Feature
         else if startsWith lowerMessage ''fix'' \<or> includes_js lowerMessage '': fix'' then Fix
         else if startsWith lowerMessage ''docs'' \<or> includes_js lowerMessage '': docs'' then Docs
         else if startsWith lowerMessage ''chore'' \<or> includes_js lowerMessage '': chore'' then Chore
         else if startsWith lowerMessage ''refactor'' \<or> includes_js lowerMessage '': refactor''
           then Refactor
         else if startsWith lowerMessage ''test'' \<or> includes_js lowerMessage '': test'' then Test
         else if startsWith lowerMessage ''style'' \<or> includes_js lowerMessage '': style'' then Style
         else Other)"


record Commit =
  hash :: "string option"
  author :: "string option"
  date :: "string option"
  message :: string
  type :: CommitType

text \<open>
  The interface \<^verbatim>\<open>Commit\<close> declares \<^verbatim>\<open>hash\<close>, \<^verbatim>\<open>author\<close> and \<^verbatim>\<open>date\<close> as strings. They
  are filled by the array destructuring \<^verbatim>\<open>const [hash, author, date, ...messageParts]\<close>,
  which leaves \<^verbatim>\<open>undefined\<close> in a position the array does not have; \<^const>\<open>None\<close> is that
  \<^verbatim>\<open>undefined\<close>.
\<close>

section \<open>The log parser\<close>

fun nth_opt :: "'a list \<Rightarrow> nat \<Rightarrow> 'a option" where
  \<comment> \<open>Reading an array position: \<^verbatim>\<open>undefined\<close> past the end.\<close>
  "nth_opt [] i = None"
| "nth_opt (x # xs) 0 = Some x"
| "nth_opt (x # xs) (Suc i) = nth_opt xs i"

definition parseLine :: "string \<Rightarrow> Commit" where
  \<comment> \<open>The callback that \<^verbatim>\<open>parseGitLog\<close> maps over the non-blank lines.\<close>
  "parseLine line =
     (let parts = split (CHR ''|'') line;
          messageParts = drop 3 parts;
          message = join (CHR ''|'') messageParts
      in \<lparr>hash = nth_opt parts 0, author = nth_opt parts 1, date = nth_opt parts 2,
          message = message, type = detectCommitType message\<rparr>)"

definition parseGitLog :: "string \<Rightarrow> Commit list" where
  "parseGitLog logOutput =
     map parseLine (filter (\<lambda>line. trim line \<noteq> []) (split (CHR 0x0A) logOutput))"

definition formatLine :: "string \<times> string \<times> string \<times> string \<Rightarrow> string" where
  \<comment> \<open>One line as \<^verbatim>\<open>git log --pretty=format:"%h|%an|%ad|%s"\<close> prints it.\<close>
  "formatLine x = (case x of (h, a, d, s) \<Rightarrow> h @ ''|'' @ a @ ''|'' @ d @ ''|'' @ s)"

section \<open>Dates\<close>

text \<open>
  A \<^verbatim>\<open>Date\<close> holds a time value: milliseconds since 1970-01-01T00:00Z, or \<^verbatim>\<open>NaN\<close>
  (an invalid date), which is \<^const>\<open>None\<close> here. The code builds dates with \<^verbatim>\<open>new Date(string)\<close>,
  moves one of them with \<^verbatim>\<open>setDate(getDate() + 1)\<close> and compares them with \<^verbatim>\<open>>=\<close> and \<^verbatim>\<open><\<close>.

  \<^verbatim>\<open>Date.parse\<close> reads the date-only form \<^verbatim>\<open>YYYY-MM-DD\<close> as midnight UTC of that day. What it
  does with any other string, and the local time zone that \<^verbatim>\<open>getDate\<close> and \<^verbatim>\<open>setDate\<close> work in,
  belong to the JavaScript engine and the process environment: they are the fields of
  \<open>JSEnv\<close>.
\<close>

definition msPerDay :: int where
  "msPerDay = 86400000"

definition msPerHour :: int where
  "msPerHour = 3600000"

definition isDigit :: "char \<Rightarrow> bool" where
  "isDigit c = (48 \<le> (of_char c :: nat) \<and> (of_char c :: nat) \<le> 57)"

definition digitsToInt :: "string \<Rightarrow> int" where
  "digitsToInt ds = foldl (\<lambda>acc c. 10 * acc + (int (of_char c) - 48)) 0 ds"

definition isLeapYear :: "int \<Rightarrow> bool" where
  "isLeapYear y =
     (if y mod 400 = 0 then True else if y mod 100 = 0 then False else y mod 4 = 0)"

definition daysInMonth :: "int \<Rightarrow> int \<Rightarrow> int" where
  "daysInMonth y m =
     (if m = 2 then (if isLeapYear y then 29 else 28)
      else if m = 4 \<or> m = 6 \<or> m = 9 \<or> m = 11 then 30 else 31)"

definition daysFromCivil :: "int \<Rightarrow> int \<Rightarrow> int \<Rightarrow> int" where
  \<comment> \<open>The day number of a proleptic Gregorian date, counted from 1970-01-01.\<close>
  "daysFromCivil y m d =
     (let y' = (if m \<le> 2 then y - 1 else y);
          era = y' div 400;
          yoe = y' - era * 400;
          doy = (153 * (if m > 2 then m - 3 else m + 9) + 2) div 5 + d - 1;
          doe = yoe * 365 + yoe div 4 - yoe div 100 + doy
      in era * 146097 + doe - 719468)"

definition parseISODate :: "string \<Rightarrow> int option" where
  \<comment> \<open>The date-only form \<^verbatim>\<open>YYYY-MM-DD\<close> with a month and a day that exist.\<close>
  "parseISODate s =
     (if length s = 10 \<and> s ! 4 = CHR ''-'' \<and> s ! 7 = CHR ''-''
         \<and> list_all isDigit (take 4 s @ take 2 (drop 5 s) @ drop 8 s)
      then (let y = digitsToInt (take 4 s);
                m = digitsToInt (take 2 (drop 5 s));
                d = digitsToInt (drop 8 s)
            in if 1 \<le> m \<and> m \<le> 12 \<and> 1 \<le> d \<and> d \<le> daysInMonth y m
               then Some (daysFromCivil y m d * msPerDay) else None)
      else None)"

record JSEnv =
  parseFallback :: "string \<Rightarrow> int option"
  localTime :: "int \<Rightarrow> int"
  utcTime :: "int \<Rightarrow> int"

text \<open>
  \<open>parseFallback\<close> is what \<^verbatim>\<open>Date.parse\<close> makes of a string that is not a date-only form;
  \<open>localTime\<close> and \<open>utcTime\<close> are the conversions \<^verbatim>\<open>LocalTime(t)\<close> and \<^verbatim>\<open>UTC(t)\<close> of the
  language standard for the zone the process runs in.
\<close>

definition Date_parse :: "JSEnv \<Rightarrow> string \<Rightarrow> int option" where
  "Date_parse env s =
     (case parseISODate s of Some t \<Rightarrow> Some t | None \<Rightarrow> parseFallback env s)"

definition newDate :: "JSEnv \<Rightarrow> string option \<Rightarrow> int option" where
  \<comment> \<open>\<^verbatim>\<open>new Date(v)\<close>; \<^verbatim>\<open>new Date(undefined)\<close> is an invalid date.\<close>
  "newDate env v = (case v of None \<Rightarrow> None | Some s \<Rightarrow> Date_parse env s)"

definition timeClip :: "int \<Rightarrow> int option" where
  "timeClip t = (if \<bar>t\<bar> > 8640000000000000 then None else Some t)"

definition setDate_next :: "JSEnv \<Rightarrow> int option \<Rightarrow> int option" where
  \<comment> \<open>\<^verbatim>\<open>d.setDate(d.getDate() + 1)\<close>: the same local time of day on the next local calendar
      day. \<^verbatim>\<open>MakeDay\<close> of the local year and month with the local day of the month plus one
      is the local day number plus one.\<close>
  "setDate_next env t =
     (case t of
        None \<Rightarrow> None
      | Some v \<Rightarrow>
          (let tl = localTime env v;
               nextDay = tl div msPerDay + 1;
               timeWithinDay = tl mod msPerDay
           in timeClip (utcTime env (nextDay * msPerDay + timeWithinDay))))"

definition date_ge :: "int option \<Rightarrow> int option \<Rightarrow> bool" where
  \<comment> \<open>\<^verbatim>\<open>a >= b\<close> on dates: false when either is invalid.\<close>
  "date_ge a b = (case a of None \<Rightarrow> False | Some x \<Rightarrow> (case b of None \<Rightarrow> False | Some y \<Rightarrow> y \<le> x))"

definition date_lt :: "int option \<Rightarrow> int option \<Rightarrow> bool" where
  "date_lt a b = (case a of None \<Rightarrow> False | Some x \<Rightarrow> (case b of None \<Rightarrow> False | Some y \<Rightarrow> x < y))"

definition utcEnv :: JSEnv where
  \<comment> \<open>A process running in UTC, on an engine that rejects every string but the date-only form.\<close>
  "utcEnv = \<lparr>parseFallback = (\<lambda>s. None), localTime = (\<lambda>t. t), utcTime = (\<lambda>t. t)\<rparr>"

definition newYorkEnv :: JSEnv where
  \<comment> \<open>A process running in the zone America/New\_York around the end of daylight saving time
      in 2024: UTC-4 before 2024-11-03T06:00Z, UTC-5 from then on. A local time that occurs
      twice (01:00 to 02:00 on that day) is read as the earlier instant.\<close>
  "newYorkEnv =
     \<lparr>parseFallback = (\<lambda>s. None),
      localTime = (\<lambda>t. if t < daysFromCivil 2024 11 3 * msPerDay + 6 * msPerHour
                        then t - 4 * msPerHour else t - 5 * msPerHour),
      utcTime = (\<lambda>tl. if tl < daysFromCivil 2024 11 3 * msPerDay + 2 * msPerHour
                       then tl + 4 * msPerHour else tl + 5 * msPerHour)\<rparr>"

section \<open>The filter engine\<close>

datatype js_error = TypeError | ExecFailed | FetchFailed

datatype TypeFilter = AllTypes | OfType CommitType

record DateRange =
  startDate :: string
  endDate :: string

record CommitFilters =
  ftype :: TypeFilter
  searchQuery :: string
  dateRange :: "DateRange option"

text \<open>
  \<open>ftype\<close> is the field \<^verbatim>\<open>type\<close> of \<^verbatim>\<open>CommitFilters\<close> (renamed: \<open>type\<close> is the field of a
  commit). \<^verbatim>\<open>Array.prototype.filter\<close> calls its callback on each element in order; a callback
  that throws ends the whole call with that exception.
\<close>

definition bind_res :: "'e + 'a \<Rightarrow> ('a \<Rightarrow> 'e + 'b) \<Rightarrow> 'e + 'b" where
  "bind_res r f = (case r of Inl e \<Rightarrow> Inl e | Inr x \<Rightarrow> f x)"

fun filter_js :: "('a \<Rightarrow> js_error + bool) \<Rightarrow> 'a list \<Rightarrow> js_error + 'a list" where
  "filter_js p [] = Inr []"
| "filter_js p (x # xs) =
     (case p x of
        Inl e \<Rightarrow> Inl e
      | Inr b \<Rightarrow>
          (case filter_js p xs of
             Inl e \<Rightarrow> Inl e
           | Inr ys \<Rightarrow> Inr (if b then x # ys else ys)))"

definition lowerIncludes :: "string option \<Rightarrow> string \<Rightarrow> js_error + bool" where
  \<comment> \<open>\<^verbatim>\<open>v.toLowerCase().includes(query)\<close>; calling a method on \<^verbatim>\<open>undefined\<close> throws.\<close>
  "lowerIncludes v query =
     (case v of None \<Rightarrow> Inl TypeError | Some s \<Rightarrow> Inr (includes_js (toLowerCase s) query))"

definition matchesQuery :: "string \<Rightarrow> Commit \<Rightarrow> js_error + bool" where
  \<comment> \<open>The search callback; \<^verbatim>\<open>||\<close> evaluates its right operand only when the left is false.\<close>
  "matchesQuery query commit =
     (if includes_js (toLowerCase (message commit)) query then Inr True
      else bind_res (lowerIncludes (author commit) query)
             (\<lambda>b. if b then Inr True else lowerIncludes (hash commit) query))"

definition byType :: "CommitFilters \<Rightarrow> Commit list \<Rightarrow> Commit list" where
  \<comment> \<open>The block "Filter by type".\<close>
  "byType filters result =
     (case ftype filters of
        AllTypes \<Rightarrow> result
      | OfType t \<Rightarrow> filter (\<lambda>commit. type commit = t) result)"

definition bySearch :: "CommitFilters \<Rightarrow> Commit list \<Rightarrow> js_error + Commit list" where
  \<comment> \<open>The block "Filter by search query".\<close>
  "bySearch filters result =
     (if trim (searchQuery filters) \<noteq> []
      then filter_js (matchesQuery (toLowerCase (searchQuery filters))) result
      else Inr result)"

definition byDateRange :: "JSEnv \<Rightarrow> CommitFilters \<Rightarrow> Commit list \<Rightarrow> Commit list" where
  \<comment> \<open>The block "Filter by date range".\<close>
  "byDateRange env filters result =
     (case dateRange filters of
        None \<Rightarrow> result
      | Some dr \<Rightarrow>
          (let result1 =
                 (if startDate dr \<noteq> []
                  then filter (\<lambda>commit.
                         date_ge (newDate env (date commit))
                                 (newDate env (Some (startDate dr)))) result
                  else result)
           in if endDate dr \<noteq> []
              then filter (\<lambda>commit.
                     date_lt (newDate env (date commit))
                             (setDate_next env (newDate env (Some (endDate dr))))) result1
              else result1))"

definition filterCommits :: "JSEnv \<Rightarrow> Commit list \<Rightarrow> CommitFilters \<Rightarrow> js_error + Commit list" where
  "filterCommits env commits filters =
     bind_res (bySearch filters (byType filters commits))
       (\<lambda>result. Inr (byDateRange env filters result))"

section \<open>The paginator\<close>

definition maxPageButtons :: int where
  "maxPageButtons = 5"

definition getPageRange :: "int \<Rightarrow> int \<Rightarrow> int list" where
  "getPageRange currentPage totalPages =
     (if totalPages \<le> maxPageButtons then [1..totalPages]
      else (let start = max (currentPage - maxPageButtons div 2) 1;
                end = start + maxPageButtons - 1
            in if end > totalPages
               then (let end' = totalPages;
                         start' = max (end' - maxPageButtons + 1) 1
                     in [start'..end'])
               else [start..end]))"

datatype PageControl = GoToPage int | Ellipsis | PageButton int bool

text \<open>
  The children of the \<^verbatim>\<open>page-numbers\<close> element: \<open>GoToPage n\<close> is a boundary button
  ("Go to page n"), \<open>PageButton n active\<close> a button of the window. Reading position 0 or the
  last position of an empty array gives \<^verbatim>\<open>undefined\<close>, and a comparison with it is false.
\<close>

definition pageNumbers :: "int \<Rightarrow> int \<Rightarrow> PageControl list" where
  "pageNumbers currentPage totalPages =
     (let pageRange = getPageRange currentPage totalPages
      in (case pageRange of
            [] \<Rightarrow> []
          | p # ps \<Rightarrow>
              (if p > 1 then GoToPage 1 # (if p > 2 then [Ellipsis] else []) else []))
         @ map (\<lambda>page. PageButton page (page = currentPage)) pageRange
         @ (case rev pageRange of
              [] \<Rightarrow> []
            | l # ls \<Rightarrow>
                (if l < totalPages
                 then (if l < totalPages - 1 then [Ellipsis] else []) @ [GoToPage totalPages]
                 else [])))"

record PaginationView =
  prevDisabled :: bool
  controls :: "PageControl list"
  nextDisabled :: bool
  info :: "int \<times> int"

definition Pagination :: "int \<Rightarrow> int \<Rightarrow> PaginationView option" where
  \<comment> \<open>What the component renders; \<^const>\<open>None\<close> is \<^verbatim>\<open>return null\<close>.\<close>
  "Pagination currentPage totalPages =
     (if totalPages \<le> 1 then None
      else Some \<lparr>prevDisabled = (currentPage = 1),
                 controls = pageNumbers currentPage totalPages,
                 nextDisabled = (currentPage = totalPages),
                 info = (currentPage, totalPages)\<rparr>)"

section \<open>Fetching the history\<close>

datatype GitCmd = RevListCount | GitLog int int

text \<open>
  The two commands the code runs: \<^verbatim>\<open>git rev-list --count HEAD\<close>, and \<^verbatim>\<open>git log\<close> with the
  four-field format, \<^verbatim>\<open>-n perPage\<close> and \<^verbatim>\<open>--skip=skip\<close>. The executable is outside the program:
  a function from the command to its standard output, or to the failure of the call.
\<close>

definition COMMITS_PER_PAGE :: int where
  "COMMITS_PER_PAGE = 10"

definition parseInt10 :: "string \<Rightarrow> int option" where
  \<comment> \<open>\<^verbatim>\<open>parseInt(s, 10)\<close>: leading white space, a sign, then the longest run of digits;
      \<^verbatim>\<open>NaN\<close> (\<^const>\<open>None\<close>) when there is no digit.\<close>
  "parseInt10 s =
     (let t = dropWhile isWhiteSpace s;
          neg = (take 1 t = ''-'');
          r = (if take 1 t = ''-'' \<or> take 1 t = ''+'' then drop 1 t else t);
          ds = takeWhile isDigit r
      in if ds = [] then None
         else Some (if neg then - digitsToInt ds else digitsToInt ds))"

definition fetchGitHistory ::
    "(GitCmd \<Rightarrow> js_error + string) \<Rightarrow> int \<Rightarrow> int \<Rightarrow> js_error + (Commit list \<times> int option)" where
  \<comment> \<open>\<^verbatim>\<open>fetchGitHistory\<close> of \<^verbatim>\<open>utils.ts\<close>: every exception inside the \<^verbatim>\<open>try\<close> is replaced by
      the one error it throws.\<close>
  "fetchGitHistory execPromise page perPage =
     (case execPromise RevListCount of
        Inl err \<Rightarrow> Inl FetchFailed
      | Inr countOutput \<Rightarrow>
          (let totalCount = parseInt10 (trim countOutput);
               skip = (page - 1) * perPage
           in case execPromise (GitLog perPage skip) of
                Inl err \<Rightarrow> Inl FetchFailed
              | Inr stdout \<Rightarrow>
                  (if trim stdout = [] then Inr ([], totalCount)
                   else Inr (parseGitLog stdout, totalCount))))"

subsection \<open>The component's own copy\<close>

record ChangelogState =
  commits :: "Commit list"
  filteredCommits :: "Commit list"
  loading :: bool
  error :: "string option"
  currentPage :: int
  totalCommits :: "int option"
  filters :: CommitFilters

definition initialState :: ChangelogState where
  \<comment> \<open>The arguments of the \<^verbatim>\<open>useState\<close> calls.\<close>
  "initialState =
     \<lparr>commits = [], filteredCommits = [], loading = True, error = None, currentPage = 1,
      totalCommits = Some 0,
      filters = \<lparr>ftype = AllTypes, searchQuery = [], dateRange = None\<rparr>\<rparr>"

definition loadFailedMessage :: string where
  "loadFailedMessage = ''Failed to load git history. This could be because the component is running in a build environment without git access.''"

definition parseLine_inline :: "string \<Rightarrow> Commit" where
  \<comment> \<open>The callback of the component's parsing, with the component's classifier.\<close>
  "parseLine_inline line =
     (let parts = split (CHR ''|'') line;
          messageParts = drop 3 parts;
          message = join (CHR ''|'') messageParts
      in \<lparr>hash = nth_opt parts 0, author = nth_opt parts 1, date = nth_opt parts 2,
          message = message, type = detectCommitType_inline message\<rparr>)"

definition applyFilters ::
    "JSEnv \<Rightarrow> Commit list \<Rightarrow> CommitFilters \<Rightarrow> ChangelogState \<Rightarrow> js_error + ChangelogState" where
  \<comment> \<open>The body is that of \<^verbatim>\<open>filterCommits\<close>, line for line, ending in
      \<^verbatim>\<open>setFilteredCommits(result)\<close>.\<close>
  "applyFilters env commitsToFilter currentFilters st =
     bind_res (filterCommits env commitsToFilter currentFilters)
       (\<lambda>result. Inr (st\<lparr>filteredCommits := result\<rparr>))"

definition fetchGitHistory_component ::
    "JSEnv \<Rightarrow> (GitCmd \<Rightarrow> js_error + string) \<Rightarrow> int \<Rightarrow> ChangelogState \<Rightarrow> ChangelogState" where
  \<comment> \<open>The state once the asynchronous function has run to its end; each \<^verbatim>\<open>set...\<close> call is
      an update of the state, in the order the calls are made.\<close>
  "fetchGitHistory_component env execPromise page st =
     (let st1 = st\<lparr>loading := True\<rparr>
      in case execPromise RevListCount of
           Inl err \<Rightarrow> st1\<lparr>error := Some loadFailedMessage, loading := False\<rparr>
         | Inr countOutput \<Rightarrow>
             (let totalCount = parseInt10 (trim countOutput);
                  st2 = st1\<lparr>totalCommits := totalCount\<rparr>;
                  skip = (page - 1) * COMMITS_PER_PAGE
              in case execPromise (GitLog COMMITS_PER_PAGE skip) of
                   Inl err \<Rightarrow> st2\<lparr>error := Some loadFailedMessage, loading := False\<rparr>
                 | Inr stdout \<Rightarrow>
                     (if trim stdout = []
                      then st2\<lparr>commits := [], filteredCommits := [], loading := False\<rparr>
                      else (let logEntries =
                                  map parseLine_inline
                                    (filter (\<lambda>line. trim line \<noteq> []) (split (CHR 0x0A) stdout));
                                st3 = st2\<lparr>commits := logEntries\<rparr>
                            in case applyFilters env logEntries (filters st3) st3 of
                                 Inl err \<Rightarrow> st3\<lparr>error := Some loadFailedMessage, loading := False\<rparr>
                               | Inr st4 \<Rightarrow> st4\<lparr>loading := False\<rparr>))))"

section \<open>The classifier as the specification words it\<close>

definition step1_rules :: "(string \<times> CommitType) list" where
  "step1_rules =
     [(''feat'', Feature), (''fix'', Fix), (''docs'', Docs), (''chore'', Chore),
      (''refactor'', Refactor), (''test'', Test), (''style'', Style)]"

definition step2_rules :: "(string list \<times> CommitType) list" where
  "step2_rules =
     [([''add'', ''new'', ''implement''], Feature),
      ([''fix'', ''bug'', ''issue''], Fix),
      ([''document'', ''readme'', ''comment''], Docs),
      ([''clean'', ''update'', ''upgrade''], Chore)]"

definition step1_match :: "string \<Rightarrow> string \<Rightarrow> bool" where
  \<comment> \<open>Prefix, or the infix \<^verbatim>\<open>": keyword"\<close>.\<close>
  "step1_match m k = (startsWith m k \<or> includes_js m ('': '' @ k))"

definition classify_spec :: "string \<Rightarrow> CommitType" where
  "classify_spec msg =
     (let m = toLowerCase msg
      in case find (\<lambda>r. step1_match m (fst r)) step1_rules of
           Some r \<Rightarrow> snd r
         | None \<Rightarrow>
             (case find (\<lambda>r. list_ex (includes_js m) (fst r)) step2_rules of
                Some r \<Rightarrow> snd r
              | None \<Rightarrow> Other))"

section \<open>The paginator as the specification words it\<close>

definition window_spec :: "int \<Rightarrow> int \<Rightarrow> int \<Rightarrow> int \<times> int" where
  \<comment> \<open>The window of \<open>maxButtons\<close> pages centred on the current page, clamped at the end.\<close>
  "window_spec cur tot maxButtons =
     (let start = max (cur - maxButtons div 2) 1;
          end = start + maxButtons - 1
      in if end > tot then (max (tot - maxButtons + 1) 1, tot) else (start, end))"

definition visiblePageNumbers_spec :: "int \<Rightarrow> int \<Rightarrow> int \<Rightarrow> PageControl list" where
  "visiblePageNumbers_spec cur tot maxButtons =
     (if tot \<le> maxButtons then map (\<lambda>p. PageButton p (p = cur)) [1..tot]
      else (let w = window_spec cur tot maxButtons;
                firstPage = fst w;
                lastPage = snd w
            in (if firstPage > 1
                then GoToPage 1 # (if firstPage - 1 > 1 then [Ellipsis] else [])
                else [])
               @ map (\<lambda>p. PageButton p (p = cur)) [firstPage..lastPage]
               @ (if lastPage < tot
                  then (if tot - lastPage > 1 then [Ellipsis] else []) @ [GoToPage tot]
                  else [])))"

section \<open>Properties of the string primitives\<close>

lemma split_not_Nil: "split sep s \<noteq> []"
  by (induction s) (auto split: list.splits)

lemma split_no_sep: "sep \<notin> set s \<Longrightarrow> split sep s = [s]"
  by (induction s) auto

lemma split_append_sep:
  "sep \<notin> set h \<Longrightarrow> split sep (h @ sep # rest) = h # split sep rest"
  by (induction h) auto

lemma join_split: "join sep (split sep s) = s"
proof (induction s)
  case Nil
  show ?case by simp
next
  case (Cons c cs)
  obtain w ws where ws: "split sep cs = w # ws"
    using split_not_Nil [of sep cs] by (cases "split sep cs") auto
  show ?case
  proof (cases "c = sep")
    case True
    with Cons ws show ?thesis by simp
  next
    case False
    with Cons ws show ?thesis by (cases ws) auto
  qed
qed

lemma split_join:
  "ls \<noteq> [] \<Longrightarrow> \<forall>l \<in> set ls. sep \<notin> set l \<Longrightarrow> split sep (join sep ls) = ls"
proof (induction ls rule: join.induct [of _ sep])
  case (1 sep')
  then show ?case by simp
next
  case (2 sep' x)
  then show ?case by (simp add: split_no_sep)
next
  case (3 sep' x y ys)
  then show ?case by (simp add: split_append_sep)
qed

lemma dropWhile_all_Nil:
  assumes "\<forall>x \<in> set (dropWhile P xs). P x"
  shows "dropWhile P xs = []"
proof (rule ccontr)
  assume ne: "dropWhile P xs \<noteq> []"
  then have "\<not> P (hd (dropWhile P xs))" by (rule hd_dropWhile)
  moreover have "hd (dropWhile P xs) \<in> set (dropWhile P xs)" using ne by simp
  ultimately show False using assms by blast
qed

lemma trim_Nil_iff: "trim s = [] \<longleftrightarrow> (\<forall>c \<in> set s. isWhiteSpace c)"
proof
  assume "trim s = []"
  then have "\<forall>x \<in> set (dropWhile isWhiteSpace s). isWhiteSpace x"
    by (simp add: trim_def)
  then have "dropWhile isWhiteSpace s = []" by (rule dropWhile_all_Nil)
  then show "\<forall>c \<in> set s. isWhiteSpace c" by simp
next
  assume "\<forall>c \<in> set s. isWhiteSpace c"
  then show "trim s = []"
    by (auto simp: trim_def dest: set_dropWhileD)
qed

lemma isWhiteSpace_bar: "\<not> isWhiteSpace (CHR ''|'')"
  by (simp add: isWhiteSpace_def)

lemma parseLine_formatLine:
  assumes "CHR ''|'' \<notin> set h" "CHR ''|'' \<notin> set a" "CHR ''|'' \<notin> set d"
  shows "parseLine (formatLine (h, a, d, s)) =
           \<lparr>hash = Some h, author = Some a, date = Some d, message = s,
            type = detectCommitType s\<rparr>"
proof -
  have "split (CHR ''|'') (formatLine (h, a, d, s)) = h # a # d # split (CHR ''|'') s"
    using assms by (simp add: formatLine_def split_append_sep)
  then show ?thesis
    by (simp add: parseLine_def Let_def join_split numeral_2_eq_2)
qed

lemma formatLine_not_blank: "trim (formatLine x) \<noteq> []"
  by (cases x) (auto simp: trim_Nil_iff formatLine_def isWhiteSpace_bar)


lemma parseGitLog_join:
  assumes "\<forall>l \<in> set ls. CHR 0x0A \<notin> set l"
  shows "parseGitLog (join (CHR 0x0A) ls) = map parseLine (filter (\<lambda>l. trim l \<noteq> []) ls)"
proof (cases "ls = []")
  case True
  then show ?thesis by (simp add: parseGitLog_def trim_def)
next
  case False
  with assms have "split (CHR 0x0A) (join (CHR 0x0A) ls) = ls"
    by (simp add: split_join)
  then show ?thesis by (simp add: parseGitLog_def)
qed

section \<open>The classifier\<close>

lemma detectCommitType_eq_spec: "detectCommitType m = classify_spec m"
  by (simp add: detectCommitType_def classify_spec_def step1_rules_def step2_rules_def
        step1_match_def Let_def)

text \<open>
  C1. \<^verbatim>\<open>detectCommitType\<close> is a function from every message to one of the eight
  categories, and it is the ordered algorithm of the specification: on the lower-cased
  message, the first of the seven prefix-or-infix rules that matches decides; the secondary
  substring groups are looked at only when none of the seven matches; otherwise the category
  is \<open>Other\<close>. The message "fix: add retry" is a fix, not a feature.
\<close>

theorem detectCommitType_ordered_rules:
  "detectCommitType m = classify_spec m
   \<and> detectCommitType m \<in> {Feature, Fix, Docs, Chore, Refactor, Test, Style, Other}
   \<and> detectCommitType ''fix: add retry'' = Fix"
proof -
  have "detectCommitType m = classify_spec m"
    by (rule detectCommitType_eq_spec)
  moreover have "detectCommitType m \<in> {Feature, Fix, Docs, Chore, Refactor, Test, Style, Other}"
    by (cases "detectCommitType m") simp_all
  moreover have "detectCommitType ''fix: add retry'' = Fix"
    by code_simp
  ultimately show ?thesis by simp
qed

text \<open>
  C4. The classifier of \<^verbatim>\<open>utils.ts\<close> and the one defined inside the component disagree: the
  component's copy has the seven prefix-or-infix rules and nothing after them, so a message
  that only a secondary keyword classifies is \<open>Other\<close> there.
\<close>

theorem detectCommitType_copies_differ:
  "detectCommitType ''add login page'' = Feature
   \<and> detectCommitType_inline ''add login page'' = Other"
  by code_simp

lemma detectCommitType_step1_wins:
  assumes "find (\<lambda>r. step1_match (toLowerCase m) (fst r)) step1_rules = Some r"
  shows "detectCommitType m = snd r"
  using assms by (simp add: detectCommitType_eq_spec classify_spec_def Let_def)

lemma detectCommitType_inline_agrees:
  "detectCommitType_inline m \<noteq> Other \<Longrightarrow> detectCommitType_inline m = detectCommitType m"
  by (simp add: detectCommitType_def detectCommitType_inline_def Let_def split: if_splits)

section \<open>The parser\<close>

text \<open>
  C2. The input is a sequence of lines joined by line feeds, each line either blank or a
  well-formed line \<open>h|a|d|s\<close> (no delimiter in \<open>h\<close>, \<open>a\<close>, \<open>d\<close>; no line feed anywhere).
  \<^verbatim>\<open>parseGitLog\<close> returns one record for each well-formed line and nothing for a blank one,
  in the order of the input; the record has the hash \<open>h\<close>, the author \<open>a\<close>, the date \<open>d\<close>,
  the message \<open>s\<close> whole (delimiters included) and the category of \<open>s\<close>. The text
  "abc123|Alice|2024-01-05|feat: add login" followed by two line feeds gives one record.
\<close>

theorem parseGitLog_well_formed:
  assumes "\<forall>x \<in> set items.
             (case x of
                Inl w \<Rightarrow> trim w = [] \<and> CHR 0x0A \<notin> set w
              | Inr (h, a, d, s) \<Rightarrow>
                  CHR ''|'' \<notin> set h \<union> set a \<union> set d \<and> CHR 0x0A \<notin> set (h @ a @ d @ s))"
  shows "parseGitLog (join (CHR 0x0A) (map (case_sum id formatLine) items)) =
           concat (map (case_sum (\<lambda>w. [])
                          (\<lambda>(h, a, d, s).
                             [\<lparr>hash = Some h, author = Some a, date = Some d, message = s,
                               type = detectCommitType s\<rparr>])) items)
         \<and> parseGitLog ''abc123|Alice|2024-01-05|feat: add login\<newline>\<newline>'' =
             [\<lparr>hash = Some ''abc123'', author = Some ''Alice'', date = Some ''2024-01-05'',
               message = ''feat: add login'', type = Feature\<rparr>]"
proof -
  let ?render = "case_sum id formatLine"
  let ?rec = "\<lambda>(h, a, d, s).
     [\<lparr>hash = Some h, author = Some a, date = Some d, message = s,
       type = detectCommitType s\<rparr>]"
  have no_lf: "\<forall>l \<in> set (map ?render items). CHR 0x0A \<notin> set l"
    using assms by (auto simp: formatLine_def split: sum.splits)
  have "map parseLine (filter (\<lambda>l. trim l \<noteq> []) (map ?render items)) =
          concat (map (case_sum (\<lambda>w. []) ?rec) items)"
    using assms
  proof (induction items)
    case Nil
    show ?case by simp
  next
    case (Cons x xs)
    then have IH: "map parseLine (filter (\<lambda>l. trim l \<noteq> []) (map ?render xs)) =
                     concat (map (case_sum (\<lambda>w. []) ?rec) xs)"
      by simp
    show ?case
    proof (cases x)
      case (Inl w)
      with Cons.prems have "trim w = []" by simp
      with Inl IH show ?thesis by simp
    next
      case (Inr q)
      obtain h a d s where q: "q = (h, a, d, s)" by (cases q) auto
      with Inr Cons.prems
      have "CHR ''|'' \<notin> set h" "CHR ''|'' \<notin> set a" "CHR ''|'' \<notin> set d"
        by auto
      then have "parseLine (formatLine (h, a, d, s)) =
                   \<lparr>hash = Some h, author = Some a, date = Some d, message = s,
                    type = detectCommitType s\<rparr>"
        by (rule parseLine_formatLine)
      with Inr q IH show ?thesis by (simp add: formatLine_not_blank)
    qed
  qed
  moreover have "parseGitLog ''abc123|Alice|2024-01-05|feat: add login\<newline>\<newline>'' =
             [\<lparr>hash = Some ''abc123'', author = Some ''Alice'', date = Some ''2024-01-05'',
               message = ''feat: add login'', type = Feature\<rparr>]"
    by code_simp
  ultimately show ?thesis
    using parseGitLog_join [OF no_lf] by simp
qed

theorem parseGitLog_well_formed_witness:
  "parseGitLog
       ''abc123|Alice|2024-01-05|feat: add | login\<newline> \<newline>9f|Bob|2024-01-04|docs'' =
       [\<lparr>hash = Some ''abc123'', author = Some ''Alice'', date = Some ''2024-01-05'',
         message = ''feat: add | login'', type = Feature\<rparr>,
        \<lparr>hash = Some ''9f'', author = Some ''Bob'', date = Some ''2024-01-04'',
         message = ''docs'', type = Docs\<rparr>]"
proof -
  let ?items = "[Inr (''abc123'', ''Alice'', ''2024-01-05'', ''feat: add | login''), Inl '' '',
                 Inr (''9f'', ''Bob'', ''2024-01-04'', ''docs'')]"
  have h: "\<forall>x \<in> set ?items.
      (case x of
         Inl w \<Rightarrow> trim w = [] \<and> CHR 0x0A \<notin> set w
       | Inr (h, a, d, s) \<Rightarrow>
           CHR ''|'' \<notin> set h \<union> set a \<union> set d \<and> CHR 0x0A \<notin> set (h @ a @ d @ s))"
    by (simp add: trim_def isWhiteSpace_def)
  have c1: "detectCommitType ''feat: add | login'' = Feature" by code_simp
  have c2: "detectCommitType ''docs'' = Docs" by code_simp
  show ?thesis
    using h parseGitLog_well_formed [OF h] by (simp add: formatLine_def c1 c2)
qed

text \<open>
  C3. A non-blank line with fewer than four parts gives one record, and the missing message
  is the empty string; the missing author and date are not: they are \<^verbatim>\<open>undefined\<close>. The line
  "abc123" gives the hash "abc123", no author, no date and the empty message, and a search
  over that record throws.
\<close>

theorem parseGitLog_short_line:
  "parseGitLog ''abc123'' =
     [\<lparr>hash = Some ''abc123'', author = None, date = None, message = [], type = Other\<rparr>]
   \<and> parseGitLog ''abc123|Alice'' =
       [\<lparr>hash = Some ''abc123'', author = Some ''Alice'', date = None, message = [],
         type = Other\<rparr>]
   \<and> filterCommits utcEnv (parseGitLog ''abc123'')
         \<lparr>ftype = AllTypes, searchQuery = ''login'', dateRange = None\<rparr> = Inl TypeError"
  by code_simp

lemma parseLine_no_delimiter:
  assumes "CHR ''|'' \<notin> set l"
  shows "parseLine l =
           \<lparr>hash = Some l, author = None, date = None, message = [], type = Other\<rparr>"
proof -
  have "detectCommitType [] = Other" by code_simp
  then show ?thesis
    using assms by (simp add: parseLine_def split_no_sep numeral_2_eq_2)
qed


section \<open>The filter engine\<close>

lemma filter_js_Inr_subset: "filter_js p xs = Inr ys \<Longrightarrow> set ys \<subseteq> set xs"
  by (induction xs arbitrary: ys) (auto split: sum.splits if_splits)

lemma filter_js_Inr_True: "filter_js p xs = Inr ys \<Longrightarrow> x \<in> set ys \<Longrightarrow> p x = Inr True"
  by (induction xs arbitrary: ys) (auto split: sum.splits if_splits)

lemma filter_js_all_True: "\<forall>x \<in> set xs. p x = Inr True \<Longrightarrow> filter_js p xs = Inr xs"
  by (induction xs) auto

lemma filter_fixed: "set zs \<subseteq> set (filter P xs) \<Longrightarrow> filter P zs = zs"
  by (auto simp: filter_id_conv)

lemma byType_subset: "set (byType f xs) \<subseteq> set xs"
  by (auto simp: byType_def split: TypeFilter.splits)

lemma byType_fixed: "set zs \<subseteq> set (byType f xs) \<Longrightarrow> byType f zs = zs"
  by (auto simp: byType_def filter_id_conv split: TypeFilter.splits)

lemma bySearch_fixed:
  assumes "bySearch f xs = Inr ys" and "set zs \<subseteq> set ys"
  shows "bySearch f zs = Inr zs"
proof (cases "trim (searchQuery f) = []")
  case True
  then show ?thesis by (simp add: bySearch_def)
next
  case False
  with assms(1) have "filter_js (matchesQuery (toLowerCase (searchQuery f))) xs = Inr ys"
    by (simp add: bySearch_def)
  then have "\<forall>x \<in> set ys. matchesQuery (toLowerCase (searchQuery f)) x = Inr True"
    by (blast dest: filter_js_Inr_True)
  with assms(2) have "\<forall>x \<in> set zs. matchesQuery (toLowerCase (searchQuery f)) x = Inr True"
    by blast
  then have "filter_js (matchesQuery (toLowerCase (searchQuery f))) zs = Inr zs"
    by (rule filter_js_all_True)
  with False show ?thesis by (simp add: bySearch_def)
qed

lemma byDateRange_subset: "set (byDateRange env f xs) \<subseteq> set xs"
  by (auto simp: byDateRange_def Let_def split: option.splits)

lemma byDateRange_fixed:
  "set zs \<subseteq> set (byDateRange env f xs) \<Longrightarrow> byDateRange env f zs = zs"
  by (auto simp: byDateRange_def Let_def filter_id_conv split: option.splits if_splits)

lemma filterCommits_fixed:
  assumes "filterCommits env R C = Inr R'"
  shows "filterCommits env R' C = Inr R'"
proof -
  from assms obtain ys where ys: "bySearch C (byType C R) = Inr ys"
    and R': "R' = byDateRange env C ys"
    by (auto simp: filterCommits_def bind_res_def split: sum.splits)
  have sub: "set R' \<subseteq> set ys"
    using R' byDateRange_subset by simp
  have "set ys \<subseteq> set (byType C R)"
    using ys by (auto simp: bySearch_def split: if_splits dest: filter_js_Inr_subset)
  with sub have t: "byType C R' = R'"
    by (intro byType_fixed) blast
  have q: "bySearch C R' = Inr R'"
    using ys sub by (rule bySearch_fixed)
  have d: "byDateRange env C R' = R'"
    using R' byDateRange_fixed [of R' env C ys] by simp
  show ?thesis
    by (simp add: filterCommits_def bind_res_def t q d)
qed

text \<open>
  C8. With the category "all", a search text that is empty or only white space, and no date
  range, \<^verbatim>\<open>filterCommits\<close> returns the list it was given: the same records in the same order.
\<close>

theorem filterCommits_no_criteria:
  "trim q = [] \<Longrightarrow>
     filterCommits env R \<lparr>ftype = AllTypes, searchQuery = q, dateRange = None\<rparr> = Inr R"
  by (simp add: filterCommits_def bind_res_def byType_def bySearch_def byDateRange_def)

theorem filterCommits_no_criteria_witness:
  "filterCommits utcEnv
     [\<lparr>hash = Some ''abc123'', author = Some ''Alice'', date = Some ''2024-01-05'',
       message = ''feat: add login'', type = Feature\<rparr>,
      \<lparr>hash = Some ''9f'', author = None, date = None, message = [], type = Other\<rparr>]
     \<lparr>ftype = AllTypes, searchQuery = ''  '', dateRange = None\<rparr> =
   Inr [\<lparr>hash = Some ''abc123'', author = Some ''Alice'', date = Some ''2024-01-05'',
         message = ''feat: add login'', type = Feature\<rparr>,
        \<lparr>hash = Some ''9f'', author = None, date = None, message = [], type = Other\<rparr>]"
proof -
  have h: "trim ''  '' = []" by (simp add: trim_def isWhiteSpace_def)
  show ?thesis by (rule filterCommits_no_criteria [OF h])
qed

text \<open>
  C9. \<^verbatim>\<open>filterCommits\<close> is idempotent: filtering its own result with the same criteria gives
  that result again, and a call that throws throws in the composition as well.
\<close>

theorem filterCommits_idempotent:
  "bind_res (filterCommits env R C) (\<lambda>R'. filterCommits env R' C) = filterCommits env R C"
proof (cases "filterCommits env R C")
  case (Inl e)
  then show ?thesis by (simp add: bind_res_def)
next
  case (Inr R')
  then show ?thesis by (simp add: bind_res_def filterCommits_fixed)
qed

lemma setDate_next_fixed_offset:
  assumes "\<And>t. localTime env t = t + off" and "\<And>t. utcTime env t = t - off"
  shows "setDate_next env (Some t) = timeClip (t + msPerDay)"
proof -
  have "((t + off) div msPerDay + 1) * msPerDay + (t + off) mod msPerDay = t + off + msPerDay"
    by (simp add: algebra_simps)
  then show ?thesis
    by (simp add: setDate_next_def Let_def assms)
qed

lemma filterCommits_start_bound:
  assumes "s \<noteq> []"
  shows "filterCommits env R
           \<lparr>ftype = AllTypes, searchQuery = [], dateRange = Some \<lparr>startDate = s, endDate = []\<rparr>\<rparr> =
         Inr (filter (\<lambda>c. date_ge (newDate env (date c)) (Date_parse env s)) R)"
  using assms
  by (simp add: filterCommits_def bind_res_def byType_def bySearch_def byDateRange_def
        trim_def newDate_def)

lemma filterCommits_end_bound_fixed_offset:
  assumes "\<And>t. localTime env t = t + off" and "\<And>t. utcTime env t = t - off"
    and "e \<noteq> []" and "Date_parse env e = Some te"
  shows "filterCommits env R
           \<lparr>ftype = AllTypes, searchQuery = [], dateRange = Some \<lparr>startDate = [], endDate = e\<rparr>\<rparr> =
         Inr (filter (\<lambda>c. date_lt (newDate env (date c)) (timeClip (te + msPerDay))) R)"
proof -
  have "setDate_next env (newDate env (Some e)) = timeClip (te + msPerDay)"
    using assms(4) setDate_next_fixed_offset [OF assms(1,2)] by (simp add: newDate_def)
  with assms(3) show ?thesis
    by (simp add: filterCommits_def bind_res_def byType_def bySearch_def byDateRange_def
          trim_def)
qed

text \<open>
  C5. The end bound is the end date moved to the next day of the local calendar, although
  the dates themselves are read as midnight UTC. In a zone that leaves daylight saving time
  on the local day that holds that instant, the day is 25 hours long and a record dated
  one day after the end date passes the filter. In New York, with the end date 2024-11-03,
  the record dated 2024-11-04 is kept; in UTC it is dropped.
\<close>

theorem filterCommits_end_bound_dst:
  "filterCommits newYorkEnv
     [\<lparr>hash = Some ''abc123'', author = Some ''Alice'', date = Some ''2024-11-04'',
       message = ''feat: add login'', type = Feature\<rparr>]
     \<lparr>ftype = AllTypes, searchQuery = [],
      dateRange = Some \<lparr>startDate = [], endDate = ''2024-11-03''\<rparr>\<rparr> =
   Inr [\<lparr>hash = Some ''abc123'', author = Some ''Alice'', date = Some ''2024-11-04'',
         message = ''feat: add login'', type = Feature\<rparr>]
   \<and> filterCommits utcEnv
     [\<lparr>hash = Some ''abc123'', author = Some ''Alice'', date = Some ''2024-11-04'',
       message = ''feat: add login'', type = Feature\<rparr>]
     \<lparr>ftype = AllTypes, searchQuery = [],
      dateRange = Some \<lparr>startDate = [], endDate = ''2024-11-03''\<rparr>\<rparr> = Inr []"
  by code_simp


section \<open>The paginator\<close>

lemma upto_first: "i \<le> j \<Longrightarrow> [i..j] = i # [i + 1..j]"
  by (rule upto_rec1)

lemma rev_upto_last: "i \<le> j \<Longrightarrow> rev [i..j] = j # rev [i..j - 1]"
  by (simp add: upto_rec2)

lemma pageNumbers_of_range:
  assumes "getPageRange cur tot = [s..e]" and "s \<le> e"
  shows "pageNumbers cur tot =
           (if s > 1 then GoToPage 1 # (if s > 2 then [Ellipsis] else []) else [])
           @ map (\<lambda>p. PageButton p (p = cur)) [s..e]
           @ (if e < tot
              then (if e < tot - 1 then [Ellipsis] else []) @ [GoToPage tot]
              else [])"
proof -
  have hd: "[s..e] = s # [s + 1..e]" using assms(2) by (rule upto_first)
  have lst: "rev [s..e] = e # rev [s..e - 1]" using assms(2) by (rule rev_upto_last)
  have "(case [s..e] of [] \<Rightarrow> []
         | p # ps \<Rightarrow> (if p > 1 then GoToPage 1 # (if p > 2 then [Ellipsis] else []) else [])) =
        (if s > 1 then GoToPage 1 # (if s > 2 then [Ellipsis] else []) else [])"
    by (subst hd) simp
  moreover have "(case rev [s..e] of [] \<Rightarrow> []
         | l # ls \<Rightarrow> (if l < tot
                       then (if l < tot - 1 then [Ellipsis] else []) @ [GoToPage tot]
                       else [])) =
        (if e < tot then (if e < tot - 1 then [Ellipsis] else []) @ [GoToPage tot]
         else [])"
    by (subst lst) simp
  ultimately show ?thesis
    by (simp only: pageNumbers_def Let_def assms(1))
qed

lemma getPageRange_small: "tot \<le> 5 \<Longrightarrow> getPageRange cur tot = [1..tot]"
  by (simp add: getPageRange_def maxPageButtons_def)

lemma getPageRange_window:
  "5 < tot \<Longrightarrow>
     getPageRange cur tot = [fst (window_spec cur tot 5)..snd (window_spec cur tot 5)]"
  by (simp add: getPageRange_def maxPageButtons_def window_spec_def Let_def)

lemma window_spec_ordered:
  "5 < tot \<Longrightarrow> fst (window_spec cur tot 5) \<le> snd (window_spec cur tot 5)"
  by (simp add: window_spec_def Let_def)

lemma pageNumbers_spec: "pageNumbers cur tot = visiblePageNumbers_spec cur tot 5"
proof (cases "tot \<le> 5")
  case small: True
  show ?thesis
  proof (cases "1 \<le> tot")
    case True
    with small have "pageNumbers cur tot = map (\<lambda>p. PageButton p (p = cur)) [1..tot]"
      using pageNumbers_of_range [OF getPageRange_small [OF small], of cur] by simp
    with small show ?thesis by (simp add: visiblePageNumbers_spec_def)
  next
    case False
    with small show ?thesis
      by (simp add: pageNumbers_def getPageRange_small visiblePageNumbers_spec_def)
  qed
next
  case False
  then have big: "5 < tot" by simp
  show ?thesis
    using big pageNumbers_of_range [OF getPageRange_window [OF big] window_spec_ordered [OF big]]
    by (simp add: visiblePageNumbers_spec_def Let_def)
qed

text \<open>
  C6. For a current page between 1 and the number of pages, the page controls are the ones
  the specification describes with at most five buttons: every page when there are at most
  five, otherwise the clamped window around the current page, a "page 1" control before it
  when the window starts after page 1 (with an ellipsis when it starts after page 2), and the
  same at the end with the last page. The window stays within the existing pages and holds the current
  page. For 12 pages and the current page 6: 1, an ellipsis, 4 to 8, an ellipsis, 12.
\<close>

theorem pageNumbers_visible_window:
  assumes "1 \<le> cur" and "cur \<le> tot"
  shows "pageNumbers cur tot = visiblePageNumbers_spec cur tot 5
         \<and> getPageRange cur tot =
             (if tot \<le> 5 then [1..tot]
              else [fst (window_spec cur tot 5)..snd (window_spec cur tot 5)])
         \<and> cur \<in> set (getPageRange cur tot)
         \<and> set (getPageRange cur tot) \<subseteq> {1..tot}
         \<and> length (getPageRange cur tot) = nat (min tot 5)
         \<and> pageNumbers 6 12 =
             [GoToPage 1, Ellipsis, PageButton 4 False, PageButton 5 False, PageButton 6 True,
              PageButton 7 False, PageButton 8 False, Ellipsis, GoToPage 12]"
proof -
  have range: "getPageRange cur tot =
      (if tot \<le> 5 then [1..tot]
       else [fst (window_spec cur tot 5)..snd (window_spec cur tot 5)])"
    by (simp add: getPageRange_small getPageRange_window)
  have mem: "cur \<in> set (getPageRange cur tot)"
    using assms by (auto simp: range window_spec_def Let_def)
  have sub: "set (getPageRange cur tot) \<subseteq> {1..tot}"
    using assms by (auto simp: range window_spec_def Let_def split: if_splits)
  have len: "length (getPageRange cur tot) = nat (min tot 5)"
    using assms by (auto simp: range window_spec_def Let_def)
  have ex: "pageNumbers 6 12 =
             [GoToPage 1, Ellipsis, PageButton 4 False, PageButton 5 False, PageButton 6 True,
              PageButton 7 False, PageButton 8 False, Ellipsis, GoToPage 12]"
    by code_simp
  show ?thesis
    using pageNumbers_spec range mem sub len ex by blast
qed

theorem pageNumbers_visible_window_witness:
  "pageNumbers 10 11 =
     [GoToPage 1, Ellipsis, PageButton 7 False, PageButton 8 False, PageButton 9 False,
      PageButton 10 True, PageButton 11 False]
   \<and> getPageRange 10 11 = [7, 8, 9, 10, 11]"
proof -
  have v: "visiblePageNumbers_spec 10 11 5 =
     [GoToPage 1, Ellipsis, PageButton 7 False, PageButton 8 False, PageButton 9 False,
      PageButton 10 True, PageButton 11 False]"
    by code_simp
  have w: "[fst (window_spec 10 11 5)..snd (window_spec 10 11 5)] = [7, 8, 9, 10, 11]"
    by code_simp
  show ?thesis
    using pageNumbers_visible_window [of 10 11] by (simp add: v w)
qed

text \<open>
  C10. With at most one page (none included) the component renders nothing, whatever the
  current page is.
\<close>

theorem Pagination_single_page: "tot \<le> 1 \<Longrightarrow> Pagination cur tot = None"
  by (simp add: Pagination_def)

theorem Pagination_single_page_witness: "Pagination 7 0 = None \<and> Pagination 1 1 = None"
  using Pagination_single_page [of 0 7] Pagination_single_page [of 1 1] by simp

section \<open>Fetching the history\<close>

lemma fetchGitHistory_atomic:
  "fetchGitHistory ex page perPage =
     (case ex RevListCount of
        Inl e \<Rightarrow> Inl FetchFailed
      | Inr countOutput \<Rightarrow>
          (case ex (GitLog perPage ((page - 1) * perPage)) of
             Inl e \<Rightarrow> Inl FetchFailed
           | Inr stdout \<Rightarrow>
               Inr (if trim stdout = [] then [] else parseGitLog stdout,
                    parseInt10 (trim countOutput))))"
  by (simp add: fetchGitHistory_def Let_def split: sum.splits)

text \<open>
  C7. \<^verbatim>\<open>fetchGitHistory\<close> of \<^verbatim>\<open>utils.ts\<close> returns the records and the count together or fails
  with one error. The component's own \<^verbatim>\<open>fetchGitHistory\<close> stores the count before it runs the
  second command: when the count command prints 42 and the log command fails, the state
  ends with the error message set and the total count 42, changed from 0.
\<close>

theorem fetchGitHistory_component_partial:
  "totalCommits
     (fetchGitHistory_component utcEnv
        (\<lambda>c. case c of RevListCount \<Rightarrow> Inr ''42\<newline>'' | GitLog n k \<Rightarrow> Inl ExecFailed)
        1 initialState) = Some 42
   \<and> error
       (fetchGitHistory_component utcEnv
          (\<lambda>c. case c of RevListCount \<Rightarrow> Inr ''42\<newline>'' | GitLog n k \<Rightarrow> Inl ExecFailed)
          1 initialState) = Some loadFailedMessage
   \<and> totalCommits initialState = Some 0
   \<and> fetchGitHistory
       (\<lambda>c. case c of RevListCount \<Rightarrow> Inr ''42\<newline>'' | GitLog n k \<Rightarrow> Inl ExecFailed)
       1 COMMITS_PER_PAGE = Inl FetchFailed"
  by code_simp

end
